theory Spec2Isabelle
  imports Complex_Main "HOL-Library.Sublist"
begin

section \<open>The rule-based answer evaluator of \<^verbatim>\<open>src/evaluator.py\<close>\<close>

text \<open>
  The class \<^verbatim>\<open>Evaluator\<close> has four static scorers and a dispatcher. Each scorer reads
  an answer string, derives a few sub-scores from pattern detectors and returns a dict.
  This theory embeds the Python values the scorers use, the fragment of the \<^verbatim>\<open>re\<close>
  module their patterns need, and then the five methods, one definition per local
  variable of the source.
\<close>

subsection \<open>Python strings\<close>

text \<open>
  A Python \<^verbatim>\<open>str\<close> is a sequence of Unicode code points and \<^verbatim>\<open>len\<close> counts them, so
  an answer is a list of code points. \<open>py\<close> turns a literal of this theory into one.
\<close>

type_synonym codepoint = nat
type_synonym pystr = "codepoint list"

definition py :: "string \<Rightarrow> pystr" where
  "py s = map of_char s"

text \<open>
  \<^verbatim>\<open>str.isspace\<close>, which is also the class \<^verbatim>\<open>\s\<close> of a \<^verbatim>\<open>str\<close> pattern: the full
  list of Unicode white space.
\<close>

definition isspace :: "codepoint \<Rightarrow> bool" where
  "isspace c =
     (9 \<le> c \<and> c \<le> 13 \<or> 28 \<le> c \<and> c \<le> 32 \<or> c = 133 \<or> c = 160 \<or> c = 5760
      \<or> 8192 \<le> c \<and> c \<le> 8202 \<or> c = 8232 \<or> c = 8233 \<or> c = 8239 \<or> c = 8287
      \<or> c = 12288)"

text \<open>
  The class \<^verbatim>\<open>\d\<close> of a \<^verbatim>\<open>str\<close> pattern: every Unicode decimal digit (category
  Nd), not only the ASCII ones. The digits of a script are ten consecutive code points,
  zero first; \<open>digit_zeros\<close> lists the 66 zeros of the Unicode 14.0 tables that
  CPython 3.11 carries, ASCII \<^verbatim>\<open>0\<close> (48) first, then Arabic-Indic (1632) up to the
  segmented digits (130032). \<^verbatim>\<open>str.lower\<close> leaves every one of them as it is.
\<close>

definition digit_zeros :: "codepoint list" where
  "digit_zeros =
     [48, 1632, 1776, 1984, 2406, 2534, 2662, 2790, 2918, 3046, 3174, 3302, 3430, 3558,
      3664, 3792, 3872, 4160, 4240, 6112, 6160, 6470, 6608, 6784, 6800, 6992, 7088,
      7232, 7248, 42528, 43216, 43264, 43472, 43504, 43600, 44016, 65296, 66720, 68912,
      69734, 69872, 69942, 70096, 70384, 70736, 70864, 71248, 71360, 71472, 71904,
      72016, 72784, 73040, 73120, 92768, 92864, 93008, 120782, 120792, 120802, 120812,
      120822, 123200, 123632, 125264, 130032]"

definition isdigit :: "codepoint \<Rightarrow> bool" where
  "isdigit c = list_ex (\<lambda>zero. zero \<le> c \<and> c < zero + 10) digit_zeros"

text \<open>The classes \<^verbatim>\<open>[A-Z]\<close> and \<^verbatim>\<open>[a-z]\<close>.\<close>

definition upper_AZ :: "codepoint \<Rightarrow> bool" where
  "upper_AZ c = (65 \<le> c \<and> c \<le> 90)"

definition lower_az :: "codepoint \<Rightarrow> bool" where
  "lower_az c = (97 \<le> c \<and> c \<le> 122)"

text \<open>
  \<^verbatim>\<open>str.lower\<close>, code point by code point. It is exact below 256 (A to Z and the
  accented capitals of Latin-1 move up by 32) and on the five code points beyond whose
  lower-case form has a code point below 256. Any other code point is kept as it is,
  where Python may put another code point above 255 in its place; no detector of the
  evaluator tells such code points apart.
\<close>

definition lower_cp :: "codepoint \<Rightarrow> pystr" where
  "lower_cp c =
     (if 65 \<le> c \<and> c \<le> 90 then [c + 32]
      else if 192 \<le> c \<and> c \<le> 214 then [c + 32]
      else if 216 \<le> c \<and> c \<le> 222 then [c + 32]
      else if c = 304 then [105, 775]
      else if c = 376 then [255]
      else if c = 7838 then [223]
      else if c = 8490 then [107]
      else if c = 8491 then [229]
      else [c])"

definition lower :: "pystr \<Rightarrow> pystr" where
  "lower s = concat (map lower_cp s)"

text \<open>\<^verbatim>\<open>str.strip()\<close> removes the white space at both ends.\<close>

definition strip :: "pystr \<Rightarrow> pystr" where
  "strip s = rev (dropWhile isspace (rev (dropWhile isspace s)))"

text \<open>\<^verbatim>\<open>w in s\<close> on strings: \<open>w\<close> occurs in \<open>s\<close> as a contiguous block.\<close>

fun substr_in :: "pystr \<Rightarrow> pystr \<Rightarrow> bool" where
  "substr_in w [] = (w = [])"
| "substr_in w (c # cs) = (prefix w (c # cs) \<or> substr_in w cs)"

subsection \<open>Python numbers and dicts\<close>

text \<open>
  The scores are Python floats built from a few decimal constants, counts divided by
  2, 3 or 4, and sums of products of these. They are modelled as exact rationals.
  \<^verbatim>\<open>round(x, 3)\<close> rounds to the nearest multiple of one thousandth, a tie going to the
  even one. The exact value of every score is either a multiple of one thousandth or
  at least a sixth of a thousandth away from a tie, so the binary rounding error of
  the float arithmetic never changes the rounded result.
\<close>

definition round_half_even :: "rat \<Rightarrow> int" where
  "round_half_even y =
     (let f = \<lfloor>y\<rfloor>; d = y - of_int f
      in if d < 1 / 2 then f
         else if 1 / 2 < d then f + 1
         else if even f then f else f + 1)"

definition round3 :: "rat \<Rightarrow> rat" where
  "round3 x = of_int (round_half_even (x * 1000)) / 1000"

text \<open>
  The values a result dict holds. Python compares \<^verbatim>\<open>0 == 0.0\<close> as equal, so one
  constructor carries the numeric value of a score whether Python holds it as a float
  or, as for a sum of three \<^verbatim>\<open>0\<close> branches, as an int.
\<close>

datatype pyval = PyStr pystr | PyFloat rat | PyInt int | PyBool bool

type_synonym result = "(string \<times> pyval) list"

definition dict_get :: "result \<Rightarrow> string \<Rightarrow> pyval option" where
  "dict_get d k = map_of d k"

datatype error = ValueError pystr

subsection \<open>The fragment of \<^verbatim>\<open>re\<close> the patterns use\<close>

text \<open>
  The patterns of the source are built from literals, character classes, \<^verbatim>\<open>+\<close> and
  \<^verbatim>\<open>*\<close> on a class, concatenation and \<^verbatim>\<open>|\<close>.
\<close>

datatype regex =
    Lit pystr
  | Cls "codepoint \<Rightarrow> bool"
  | Many1 "codepoint \<Rightarrow> bool"
  | Many0 "codepoint \<Rightarrow> bool"
  | Cat regex regex
  | Alt regex regex

text \<open>
  \<open>mlens r s\<close> lists the lengths of the matches of \<open>r\<close> that start at the head of \<open>s\<close>,
  in the order in which the backtracking matcher of \<^verbatim>\<open>re\<close> tries them: a greedy
  repetition offers its longest run first, an alternation its left branch first. The
  head of the list is the match \<^verbatim>\<open>re\<close> reports at this position.
\<close>

fun mlens :: "regex \<Rightarrow> pystr \<Rightarrow> nat list" where
  "mlens (Lit w) s = (if prefix w s then [length w] else [])"
| "mlens (Cls P) s = (case s of [] \<Rightarrow> [] | c # _ \<Rightarrow> if P c then [1] else [])"
| "mlens (Many1 P) s = rev [1 ..< Suc (length (takeWhile P s))]"
| "mlens (Many0 P) s = rev [0 ..< Suc (length (takeWhile P s))]"
| "mlens (Cat r1 r2) s =
     concat (map (\<lambda>n. map (\<lambda>m. n + m) (mlens r2 (drop n s))) (mlens r1 s))"
| "mlens (Alt r1 r2) s = mlens r1 s @ mlens r2 s"

text \<open>\<^verbatim>\<open>bool(re.search(r, s))\<close>: some position of \<open>s\<close> has a match.\<close>

fun re_search :: "regex \<Rightarrow> pystr \<Rightarrow> bool" where
  "re_search r [] = (case mlens r [] of [] \<Rightarrow> False | n # _ \<Rightarrow> True)"
| "re_search r (c # cs) =
     (case mlens r (c # cs) of [] \<Rightarrow> re_search r cs | n # _ \<Rightarrow> True)"

text \<open>
  \<^verbatim>\<open>len(re.findall(r, s))\<close>: scan from the left; where \<open>r\<close> matches, count the match
  and go on behind it, otherwise move one code point on. No pattern of the source
  matches the empty string, so a match always moves the scan forward.
\<close>

function findall_count :: "regex \<Rightarrow> pystr \<Rightarrow> nat" where
  "findall_count r [] = (if mlens r [] = [] then 0 else 1)"
| "findall_count r (c # cs) =
     (case mlens r (c # cs) of
        [] \<Rightarrow> findall_count r cs
      | n # _ \<Rightarrow> Suc (findall_count r (drop (n - 1) cs)))"
  by pat_completeness auto
termination
  by (relation "measure (\<lambda>(r, s). length s)") auto

subsection \<open>\<^verbatim>\<open>evaluate_factual\<close>\<close>

definition factual_answer_lower :: "pystr \<Rightarrow> pystr" where
  "factual_answer_lower answer = strip (lower answer)"

definition factual_length_score :: "pystr \<Rightarrow> rat" where
  "factual_length_score answer =
     (if length answer \<le> 150 then 1.0
      else if length answer \<le> 300 then 0.8
      else 0.5)"

definition factual_has_number :: "pystr \<Rightarrow> bool" where
  "factual_has_number answer = re_search (Many1 isdigit) answer"

definition url_pattern :: regex where
  "url_pattern = Alt (Lit (py ''http'')) (Lit (py ''www.''))"

definition factual_has_url :: "pystr \<Rightarrow> bool" where
  "factual_has_url answer = re_search url_pattern (factual_answer_lower answer)"

definition name_pattern :: regex where
  "name_pattern =
     Cat (Cls upper_AZ) (Cat (Many1 lower_az) (Cat (Many1 isspace)
       (Cat (Cls upper_AZ) (Many1 lower_az))))"

definition factual_has_specific_name :: "pystr \<Rightarrow> bool" where
  "factual_has_specific_name answer = re_search name_pattern answer"

definition factual_specificity_score :: "pystr \<Rightarrow> rat" where
  "factual_specificity_score answer =
     (if factual_has_number answer then 0.4 else 0)
     + (if factual_has_url answer then 0.3 else 0)
     + (if factual_has_specific_name answer then 0.3 else 0)"

definition vague_terms :: "pystr list" where
  "vague_terms =
     [py ''maybe'', py ''might'', py ''possibly'', py ''unclear'',
      py ''i don't know'']"

definition factual_has_vague :: "pystr \<Rightarrow> bool" where
  "factual_has_vague answer =
     list_ex (\<lambda>term. substr_in term (factual_answer_lower answer)) vague_terms"

definition factual_clarity_score :: "pystr \<Rightarrow> rat" where
  "factual_clarity_score answer = (if factual_has_vague answer then 0.0 else 1.0)"

definition factual_total_score :: "pystr \<Rightarrow> rat" where
  "factual_total_score answer =
     0.3 * factual_length_score answer
     + 0.4 * factual_specificity_score answer
     + 0.3 * factual_clarity_score answer"

definition evaluate_factual :: "pystr \<Rightarrow> result" where
  "evaluate_factual answer =
     [(''category'', PyStr (py ''factual'')),
      (''length_score'', PyFloat (round3 (factual_length_score answer))),
      (''specificity_score'', PyFloat (round3 (factual_specificity_score answer))),
      (''clarity_score'', PyFloat (round3 (factual_clarity_score answer))),
      (''total_score'', PyFloat (round3 (factual_total_score answer))),
      (''answer_length'', PyInt (int (length answer))),
      (''has_specific_info'',
         PyBool (factual_has_number answer \<or> factual_has_url answer
                 \<or> factual_has_specific_name answer))]"

subsection \<open>\<^verbatim>\<open>evaluate_procedural\<close>\<close>

text \<open>
  \<open>count_present\<close> is \<^verbatim>\<open>sum(1 for w in words if w in text)\<close>: the number of entries
  of a word list that occur in the text.
\<close>

definition count_present :: "pystr list \<Rightarrow> pystr \<Rightarrow> nat" where
  "count_present words text = length (filter (\<lambda>w. substr_in w text) words)"

definition step_patterns :: "regex list" where
  "step_patterns =
     [Cat (Many1 isdigit) (Lit (py ''.'')),
      Cat (Lit (py ''step '')) (Many1 isdigit),
      Alt (Lit (py ''first'')) (Alt (Lit (py ''second'')) (Alt (Lit (py ''third''))
        (Alt (Lit (py ''then'')) (Alt (Lit (py ''next'')) (Lit (py ''finally''))))))]"

text \<open>The loop \<^verbatim>\<open>for pattern in step_patterns: step_markers += ...\<close>.\<close>

definition procedural_step_markers :: "pystr \<Rightarrow> nat" where
  "procedural_step_markers answer =
     foldl (\<lambda>step_markers pattern. step_markers + findall_count pattern (lower answer))
       0 step_patterns"

definition procedural_step_score :: "pystr \<Rightarrow> rat" where
  "procedural_step_score answer = min (of_nat (procedural_step_markers answer) / 3.0) 1.0"

definition connectors :: "pystr list" where
  "connectors =
     [py ''first'', py ''then'', py ''next'', py ''after'', py ''finally'', py ''before'']"

definition procedural_connector_count :: "pystr \<Rightarrow> nat" where
  "procedural_connector_count answer = count_present connectors (lower answer)"

definition procedural_logic_score :: "pystr \<Rightarrow> rat" where
  "procedural_logic_score answer =
     min (of_nat (procedural_connector_count answer) / 3.0) 1.0"

definition action_verbs :: "pystr list" where
  "action_verbs =
     [py ''click'', py ''go'', py ''visit'', py ''submit'', py ''fill'', py ''select'',
      py ''open'', py ''enter'']"

definition procedural_action_count :: "pystr \<Rightarrow> nat" where
  "procedural_action_count answer = count_present action_verbs (lower answer)"

definition procedural_action_score :: "pystr \<Rightarrow> rat" where
  "procedural_action_score answer =
     min (of_nat (procedural_action_count answer) / 4.0) 1.0"

definition procedural_total_score :: "pystr \<Rightarrow> rat" where
  "procedural_total_score answer =
     0.4 * procedural_step_score answer
     + 0.3 * procedural_logic_score answer
     + 0.3 * procedural_action_score answer"

definition evaluate_procedural :: "pystr \<Rightarrow> result" where
  "evaluate_procedural answer =
     [(''category'', PyStr (py ''procedural'')),
      (''step_score'', PyFloat (round3 (procedural_step_score answer))),
      (''logic_score'', PyFloat (round3 (procedural_logic_score answer))),
      (''action_score'', PyFloat (round3 (procedural_action_score answer))),
      (''total_score'', PyFloat (round3 (procedural_total_score answer))),
      (''step_markers_found'', PyInt (int (procedural_step_markers answer))),
      (''connectors_found'', PyInt (int (procedural_connector_count answer))),
      (''actions_found'', PyInt (int (procedural_action_count answer)))]"

subsection \<open>\<^verbatim>\<open>evaluate_comparative\<close>\<close>

definition comparison_words :: "pystr list" where
  "comparison_words =
     [py ''compare'', py ''difference'', py ''similar'', py ''both'', py ''while'',
      py ''whereas'', py ''however'', py ''in contrast'', py ''on the other hand'']"

definition comparative_comparison_count :: "pystr \<Rightarrow> nat" where
  "comparative_comparison_count answer = count_present comparison_words (lower answer)"

definition comparative_comparison_score :: "pystr \<Rightarrow> rat" where
  "comparative_comparison_score answer =
     min (of_nat (comparative_comparison_count answer) / 3.0) 1.0"

definition dimensions :: "pystr list" where
  "dimensions =
     [py ''cost'', py ''location'', py ''facility'', py ''time'', py ''quality'',
      py ''size'', py ''distance'']"

definition comparative_dimension_count :: "pystr \<Rightarrow> nat" where
  "comparative_dimension_count answer = count_present dimensions (lower answer)"

definition comparative_dimension_score :: "pystr \<Rightarrow> rat" where
  "comparative_dimension_score answer =
     min (of_nat (comparative_dimension_count answer) / 2.0) 1.0"

text \<open>
  The class \<^verbatim>\<open>[-\<bullet>*]\<close> of the structure pattern: hyphen, the bullet U+2022 and the
  asterisk.
\<close>

definition bullet :: "codepoint \<Rightarrow> bool" where
  "bullet c = (c = 45 \<or> c = 8226 \<or> c = 42)"

definition structure_pattern :: regex where
  "structure_pattern =
     Alt (Cat (Lit [10]) (Cat (Many0 isspace) (Cls bullet)))
         (Cat (Many1 isdigit) (Lit (py ''.'')))"

definition comparative_has_structure :: "pystr \<Rightarrow> bool" where
  "comparative_has_structure answer = re_search structure_pattern answer"

definition comparative_structure_score :: "pystr \<Rightarrow> rat" where
  "comparative_structure_score answer =
     (if comparative_has_structure answer then 1.0 else 0.5)"

definition comparative_length_score :: "pystr \<Rightarrow> rat" where
  "comparative_length_score answer =
     (if length answer \<ge> 200 then 1.0
      else if length answer \<ge> 100 then 0.7
      else 0.4)"

definition comparative_total_score :: "pystr \<Rightarrow> rat" where
  "comparative_total_score answer =
     0.3 * comparative_comparison_score answer
     + 0.3 * comparative_dimension_score answer
     + 0.2 * comparative_structure_score answer
     + 0.2 * comparative_length_score answer"

definition evaluate_comparative :: "pystr \<Rightarrow> result" where
  "evaluate_comparative answer =
     [(''category'', PyStr (py ''comparative'')),
      (''comparison_score'', PyFloat (round3 (comparative_comparison_score answer))),
      (''dimension_score'', PyFloat (round3 (comparative_dimension_score answer))),
      (''structure_score'', PyFloat (round3 (comparative_structure_score answer))),
      (''length_score'', PyFloat (round3 (comparative_length_score answer))),
      (''total_score'', PyFloat (round3 (comparative_total_score answer))),
      (''comparison_words_found'', PyInt (int (comparative_comparison_count answer))),
      (''dimensions_found'', PyInt (int (comparative_dimension_count answer)))]"

subsection \<open>\<^verbatim>\<open>evaluate_recommendation\<close>\<close>

definition recommend_pattern :: regex where
  "recommend_pattern =
     Alt (Lit (py ''recommend'')) (Alt (Lit (py ''suggest''))
       (Alt (Lit (py ''should'')) (Lit (py ''could try''))))"

definition recommendation_has_recommendation :: "pystr \<Rightarrow> bool" where
  "recommendation_has_recommendation answer = re_search recommend_pattern (lower answer)"

definition recommendation_recommendation_score :: "pystr \<Rightarrow> rat" where
  "recommendation_recommendation_score answer =
     (if recommendation_has_recommendation answer then 1.0 else 0.0)"

definition reasoning_words :: "pystr list" where
  "reasoning_words =
     [py ''because'', py ''since'', py ''as'', py ''due to'', py ''offers'',
      py ''provides'', py ''has'']"

definition recommendation_reasoning_count :: "pystr \<Rightarrow> nat" where
  "recommendation_reasoning_count answer = count_present reasoning_words (lower answer)"

definition recommendation_reasoning_score :: "pystr \<Rightarrow> rat" where
  "recommendation_reasoning_score answer =
     min (of_nat (recommendation_reasoning_count answer) / 2.0) 1.0"

definition constraint_words :: "pystr list" where
  "constraint_words =
     [py ''budget'', py ''time'', py ''location'', py ''prefer'', py ''near'',
      py ''available'', py ''suitable'']"

definition recommendation_constraint_count :: "pystr \<Rightarrow> nat" where
  "recommendation_constraint_count answer = count_present constraint_words (lower answer)"

definition recommendation_constraint_score :: "pystr \<Rightarrow> rat" where
  "recommendation_constraint_score answer =
     min (of_nat (recommendation_constraint_count answer) / 2.0) 1.0"

definition option_pattern :: regex where
  "option_pattern =
     Alt (Cat (Many1 isdigit) (Lit (py '')'')))
       (Alt (Cat (Lit (py ''option '')) (Many1 isdigit)) (Lit (py ''alternatively'')))"

definition recommendation_option_markers :: "pystr \<Rightarrow> nat" where
  "recommendation_option_markers answer = findall_count option_pattern (lower answer)"

definition recommendation_diversity_score :: "pystr \<Rightarrow> rat" where
  "recommendation_diversity_score answer =
     min (of_nat (recommendation_option_markers answer) / 2.0) 1.0"

definition recommendation_total_score :: "pystr \<Rightarrow> rat" where
  "recommendation_total_score answer =
     0.3 * recommendation_recommendation_score answer
     + 0.3 * recommendation_reasoning_score answer
     + 0.25 * recommendation_constraint_score answer
     + 0.15 * recommendation_diversity_score answer"

definition evaluate_recommendation :: "pystr \<Rightarrow> result" where
  "evaluate_recommendation answer =
     [(''category'', PyStr (py ''recommendation'')),
      (''recommendation_score'',
         PyFloat (round3 (recommendation_recommendation_score answer))),
      (''reasoning_score'', PyFloat (round3 (recommendation_reasoning_score answer))),
      (''constraint_score'', PyFloat (round3 (recommendation_constraint_score answer))),
      (''diversity_score'', PyFloat (round3 (recommendation_diversity_score answer))),
      (''total_score'', PyFloat (round3 (recommendation_total_score answer))),
      (''has_recommendation'', PyBool (recommendation_has_recommendation answer)),
      (''reasoning_indicators'', PyInt (int (recommendation_reasoning_count answer))),
      (''constraint_awareness'', PyInt (int (recommendation_constraint_count answer)))]"

subsection \<open>\<^verbatim>\<open>evaluate\<close>\<close>

text \<open>
  The dict \<^verbatim>\<open>evaluators\<close> maps the four type names to the scorers; a failed
  \<^verbatim>\<open>get\<close> raises \<^verbatim>\<open>ValueError\<close> with the offending name in its message.
\<close>

definition evaluators :: "(pystr \<times> (pystr \<Rightarrow> result)) list" where
  "evaluators =
     [(py ''factual'', evaluate_factual),
      (py ''procedural'', evaluate_procedural),
      (py ''comparative'', evaluate_comparative),
      (py ''recommendation'', evaluate_recommendation)]"

definition evaluate :: "pystr \<Rightarrow> pystr \<Rightarrow> error + result" where
  "evaluate answer question_type =
     (case map_of evaluators question_type of
        None \<Rightarrow> Inl (ValueError (py ''Unknown question type: '' @ question_type))
      | Some evaluator \<Rightarrow> Inr (evaluator answer))"

subsection \<open>Reading a result; the language of a pattern\<close>

text \<open>
  \<open>result_field\<close> reads one key of what \<^verbatim>\<open>evaluate\<close> returned; a raised error has
  no fields.
\<close>

definition result_field :: "error + result \<Rightarrow> string \<Rightarrow> pyval option" where
  "result_field res k = (case res of Inl e \<Rightarrow> None | Inr r \<Rightarrow> dict_get r k)"

text \<open>
  The strings a pattern denotes. The matcher \<open>mlens\<close> is checked against this
  declarative reading below; the scorers only ever run the matcher.
\<close>

fun lang :: "regex \<Rightarrow> pystr set" where
  "lang (Lit w) = {w}"
| "lang (Cls P) = {[c] | c. P c}"
| "lang (Many1 P) = {w. w \<noteq> [] \<and> list_all P w}"
| "lang (Many0 P) = {w. list_all P w}"
| "lang (Cat r1 r2) = {u @ v | u v. u \<in> lang r1 \<and> v \<in> lang r2}"
| "lang (Alt r1 r2) = lang r1 \<union> lang r2"

section \<open>Properties\<close>

subsection \<open>Arithmetic on rationals\<close>

lemma floor_rat_numeral_div [simp]:
  "\<lfloor>numeral a / numeral b :: rat\<rfloor> = numeral a div numeral b"
  using floor_divide_of_int_eq[of "numeral a" "numeral b", where ?'a = rat] by simp

subsection \<open>Occurrences of a block in a string\<close>

lemma block_split_Cons:
  "(\<exists>p m q. c # cs = p @ m @ q \<and> Q m) \<longleftrightarrow>
   (\<exists>m q. c # cs = m @ q \<and> Q m) \<or> (\<exists>p m q. cs = p @ m @ q \<and> Q m)"
proof
  assume "\<exists>p m q. c # cs = p @ m @ q \<and> Q m"
  then obtain p m q where pq: "c # cs = p @ m @ q" and m: "Q m" by blast
  show "(\<exists>m q. c # cs = m @ q \<and> Q m) \<or> (\<exists>p m q. cs = p @ m @ q \<and> Q m)"
  proof (cases p)
    case Nil
    with pq m show ?thesis by auto
  next
    case (Cons a p')
    with pq have "cs = p' @ m @ q" by simp
    with m show ?thesis by blast
  qed
next
  assume "(\<exists>m q. c # cs = m @ q \<and> Q m) \<or> (\<exists>p m q. cs = p @ m @ q \<and> Q m)"
  then show "\<exists>p m q. c # cs = p @ m @ q \<and> Q m"
  proof
    assume "\<exists>m q. c # cs = m @ q \<and> Q m"
    then obtain m q where "c # cs = [] @ m @ q" "Q m" by auto
    then show ?thesis by blast
  next
    assume "\<exists>p m q. cs = p @ m @ q \<and> Q m"
    then obtain p m q where "c # cs = (c # p) @ m @ q" "Q m" by auto
    then show ?thesis by blast
  qed
qed

lemma substr_in_iff: "substr_in w s \<longleftrightarrow> (\<exists>p q. s = p @ w @ q)"
proof (induction s)
  case Nil
  show ?case by auto
next
  case (Cons c cs)
  have "(\<exists>p q. c # cs = p @ w @ q) \<longleftrightarrow> (\<exists>p m q. c # cs = p @ m @ q \<and> m = w)"
    by auto
  also have "\<dots> \<longleftrightarrow> (\<exists>m q. c # cs = m @ q \<and> m = w) \<or> (\<exists>p m q. cs = p @ m @ q \<and> m = w)"
    by (rule block_split_Cons)
  also have "\<dots> \<longleftrightarrow> prefix w (c # cs) \<or> substr_in w cs"
    using Cons by (auto simp: prefix_def)
  finally show ?case by simp
qed

lemma dropWhile_keeps_block:
  assumes "w \<noteq> []" and "\<not> P (hd w)"
  shows "\<exists>p'. dropWhile P (p @ w @ q) = p' @ w @ q"
proof (cases "\<forall>x\<in>set p. P x")
  case True
  from assms have "dropWhile P (w @ q) = w @ q" by (cases w) auto
  with True have "dropWhile P (p @ w @ q) = [] @ w @ q" by (simp add: dropWhile_append)
  then show ?thesis by blast
next
  case False
  then have "dropWhile P (p @ w @ q) = dropWhile P p @ w @ q"
    by (auto simp: dropWhile_append)
  then show ?thesis by blast
qed

lemma strip_decomp: "\<exists>l t. s = l @ strip s @ t"
proof -
  let ?m = "dropWhile isspace s"
  have "rev (takeWhile isspace (rev ?m) @ dropWhile isspace (rev ?m)) = ?m"
    by (simp only: takeWhile_dropWhile_id rev_rev_ident)
  then have "strip s @ rev (takeWhile isspace (rev ?m)) = ?m"
    by (simp only: rev_append strip_def)
  then have "s = takeWhile isspace s @ strip s @ rev (takeWhile isspace (rev ?m))"
    by simp
  then show ?thesis by blast
qed

lemma substr_in_strip:
  assumes "w \<noteq> []" and "\<not> isspace (hd w)" and "\<not> isspace (last w)"
  shows "substr_in w (strip s) \<longleftrightarrow> substr_in w s"
proof
  assume "substr_in w (strip s)"
  then obtain p q where "strip s = p @ w @ q" by (auto simp: substr_in_iff)
  moreover obtain l t where "s = l @ strip s @ t" using strip_decomp by blast
  ultimately have "s = (l @ p) @ w @ (q @ t)" by simp
  then show "substr_in w s" unfolding substr_in_iff by blast
next
  assume "substr_in w s"
  then obtain p q where s: "s = p @ w @ q" by (auto simp: substr_in_iff)
  obtain p' where 1: "dropWhile isspace (p @ w @ q) = p' @ w @ q"
    using dropWhile_keeps_block[of w isspace p q] assms by blast
  have "rev w \<noteq> []" "\<not> isspace (hd (rev w))" using assms by (simp_all add: hd_rev)
  then obtain q' where 2: "dropWhile isspace (rev q @ rev w @ rev p') = q' @ rev w @ rev p'"
    using dropWhile_keeps_block[of "rev w" isspace "rev q" "rev p'"] by blast
  have "strip s = p' @ w @ rev q'" using s 1 2 by (simp add: strip_def)
  then show "substr_in w (strip s)" unfolding substr_in_iff by blast
qed

subsection \<open>Rounding\<close>

lemma round_half_even_of_int: "round_half_even (of_int n) = n"
  by (simp add: round_half_even_def)

lemma round_half_even_lower: "\<lfloor>y\<rfloor> \<le> round_half_even y"
  by (simp add: round_half_even_def Let_def)

lemma round_half_even_upper: "round_half_even y \<le> \<lfloor>y\<rfloor> + 1"
  by (simp add: round_half_even_def Let_def)

lemma round_half_even_mono:
  assumes "x \<le> y"
  shows "round_half_even x \<le> round_half_even y"
proof (cases "\<lfloor>x\<rfloor> = \<lfloor>y\<rfloor>")
  case True
  with assms show ?thesis by (simp add: round_half_even_def Let_def)
next
  case False
  moreover have "\<lfloor>x\<rfloor> \<le> \<lfloor>y\<rfloor>" using assms by (rule floor_mono)
  ultimately have "\<lfloor>x\<rfloor> + 1 \<le> \<lfloor>y\<rfloor>" by simp
  with round_half_even_upper[of x] round_half_even_lower[of y] show ?thesis by linarith
qed

lemma round3_mono: "x \<le> y \<Longrightarrow> round3 x \<le> round3 y"
  by (simp add: round3_def round_half_even_mono divide_right_mono)

lemma round3_0: "round3 0 = 0"
  using round_half_even_of_int[of 0] by (simp add: round3_def)

lemma round3_1: "round3 1 = 1"
  using round_half_even_of_int[of 1000] by (simp add: round3_def)

lemma round3_unit: "0 \<le> x \<Longrightarrow> x \<le> 1 \<Longrightarrow> 0 \<le> round3 x \<and> round3 x \<le> 1"
  using round3_mono[of 0 x] round3_mono[of x 1] by (simp add: round3_0 round3_1)

subsection \<open>The matcher against the language of a pattern\<close>

lemma takeWhile_take_iff:
  "n \<le> length (takeWhile P s) \<longleftrightarrow> n \<le> length s \<and> list_all P (take n s)"
proof (induction s arbitrary: n)
  case Nil
  show ?case by simp
next
  case (Cons c cs)
  show ?case
  proof (cases n)
    case 0
    then show ?thesis by simp
  next
    case (Suc k)
    with Cons[of k] show ?thesis by simp
  qed
qed

lemma mlens_iff: "n \<in> set (mlens r s) \<longleftrightarrow> n \<le> length s \<and> take n s \<in> lang r"
proof (induction r arbitrary: n s)
  case (Lit w)
  show ?case
  proof
    assume "n \<in> set (mlens (Lit w) s)"
    then have "prefix w s" and n: "n = length w" by (auto split: if_splits)
    then obtain q where "s = w @ q" by (auto simp: prefix_def)
    with n show "n \<le> length s \<and> take n s \<in> lang (Lit w)" by simp
  next
    assume a: "n \<le> length s \<and> take n s \<in> lang (Lit w)"
    then have w: "take n s = w" by simp
    then have "prefix w s" using take_is_prefix[of n s] by simp
    moreover from a w have "length w = n" by auto
    ultimately show "n \<in> set (mlens (Lit w) s)" by simp
  qed
next
  case (Cls P)
  show ?case
  proof (cases s)
    case Nil
    then show ?thesis by simp
  next
    case (Cons c cs)
    then show ?thesis by (cases n) auto
  qed
next
  case (Many1 P)
  have "n \<in> set (mlens (Many1 P) s) \<longleftrightarrow> 1 \<le> n \<and> n \<le> length (takeWhile P s)"
    by auto
  also have "\<dots> \<longleftrightarrow> 1 \<le> n \<and> n \<le> length s \<and> list_all P (take n s)"
    by (simp add: takeWhile_take_iff)
  also have "\<dots> \<longleftrightarrow> n \<le> length s \<and> take n s \<in> lang (Many1 P)"
    by (cases n; cases s) auto
  finally show ?case .
next
  case (Many0 P)
  have "n \<in> set (mlens (Many0 P) s) \<longleftrightarrow> n \<le> length (takeWhile P s)"
    by auto
  also have "\<dots> \<longleftrightarrow> n \<le> length s \<and> take n s \<in> lang (Many0 P)"
    by (simp add: takeWhile_take_iff)
  finally show ?case .
next
  case (Cat r1 r2)
  show ?case
  proof
    assume "n \<in> set (mlens (Cat r1 r2) s)"
    then obtain n1 m where n1: "n1 \<in> set (mlens r1 s)"
      and m: "m \<in> set (mlens r2 (drop n1 s))" and n: "n = n1 + m" by auto
    from n1 have 1: "n1 \<le> length s" "take n1 s \<in> lang r1" by (simp_all add: Cat.IH(1))
    from m have 2: "m \<le> length s - n1" "take m (drop n1 s) \<in> lang r2"
      by (simp_all add: Cat.IH(2))
    have "take n s = take n1 s @ take m (drop n1 s)" by (simp add: n take_add)
    with 1 2 n show "n \<le> length s \<and> take n s \<in> lang (Cat r1 r2)" by auto
  next
    assume a: "n \<le> length s \<and> take n s \<in> lang (Cat r1 r2)"
    then obtain u v where uv: "take n s = u @ v" and u: "u \<in> lang r1" and v: "v \<in> lang r2"
      by auto
    from a uv have len: "length u + length v = n"
      by (metis length_append length_take min.absorb2)
    have "take (length u) (take n s) = u" using uv by simp
    then have tu: "take (length u) s = u" using len by (simp add: min_def)
    have "drop (length u) (take n s) = v" using uv by simp
    moreover from len have "n - length u = length v" by simp
    ultimately have tv: "take (length v) (drop (length u) s) = v"
      by (simp add: drop_take)
    have "length u \<in> set (mlens r1 s)" using a len tu u by (simp add: Cat.IH(1))
    moreover have "length v \<le> length s - length u" using a len by linarith
    then have "length v \<in> set (mlens r2 (drop (length u) s))"
      using tv v by (simp add: Cat.IH(2))
    ultimately show "n \<in> set (mlens (Cat r1 r2) s)" using len by force
  qed
next
  case (Alt r1 r2)
  then show ?case by auto
qed

lemma mlens_nonempty_iff: "mlens r s \<noteq> [] \<longleftrightarrow> (\<exists>m q. s = m @ q \<and> m \<in> lang r)"
proof
  assume "mlens r s \<noteq> []"
  then obtain n where "n \<in> set (mlens r s)" by (cases "mlens r s") auto
  then have "n \<le> length s" "take n s \<in> lang r" by (simp_all add: mlens_iff)
  moreover have "s = take n s @ drop n s" by simp
  ultimately show "\<exists>m q. s = m @ q \<and> m \<in> lang r" by blast
next
  assume "\<exists>m q. s = m @ q \<and> m \<in> lang r"
  then obtain m q where "s = m @ q" "m \<in> lang r" by blast
  then have "length m \<in> set (mlens r s)" by (simp add: mlens_iff)
  then show "mlens r s \<noteq> []" by auto
qed

lemma re_search_Nil: "re_search r [] \<longleftrightarrow> mlens r [] \<noteq> []"
  by (simp split: list.splits)

lemma re_search_Cons: "re_search r (c # cs) \<longleftrightarrow> mlens r (c # cs) \<noteq> [] \<or> re_search r cs"
  by (simp split: list.splits)

lemma re_search_iff: "re_search r s \<longleftrightarrow> (\<exists>p m q. s = p @ m @ q \<and> m \<in> lang r)"
proof (induction s)
  case Nil
  show ?case unfolding re_search_Nil by (simp add: mlens_nonempty_iff)
next
  case (Cons c cs)
  show ?case
    unfolding block_split_Cons[of c cs "\<lambda>m. m \<in> lang r"] re_search_Cons
    using Cons by (simp add: mlens_nonempty_iff)
qed

lemma re_search_append: "re_search r a \<Longrightarrow> re_search r (a @ u)"
proof -
  assume "re_search r a"
  then obtain p m q where "a = p @ m @ q" "m \<in> lang r" by (auto simp: re_search_iff)
  then have "a @ u = p @ m @ (q @ u)" "m \<in> lang r" by simp_all
  then show ?thesis unfolding re_search_iff by blast
qed

subsection \<open>Unfolding the scorers\<close>

text \<open>
  Below the Arabic-Indic zero the only digits are the ASCII ones; beyond, two digits
  the examples use: Arabic-Indic three (1635) and fullwidth one (65297).
\<close>

lemma isdigit_ascii: "c < 1632 \<Longrightarrow> isdigit c \<longleftrightarrow> 48 \<le> c \<and> c \<le> 57"
  by (auto simp: isdigit_def digit_zeros_def)

lemma isdigit_beyond_ascii: "isdigit 1635" "isdigit 65297"
  by (simp_all add: isdigit_def digit_zeros_def)

lemmas str_defs = py_def lower_def lower_cp_def strip_def isspace_def isdigit_ascii
  upper_AZ_def lower_az_def

lemmas round_defs = round3_def round_half_even_def Let_def

lemmas eval_defs = result_field_def evaluate_def evaluators_def dict_get_def

lemmas factual_defs = factual_answer_lower_def factual_length_score_def
  factual_has_number_def url_pattern_def factual_has_url_def name_pattern_def
  factual_has_specific_name_def factual_specificity_score_def vague_terms_def
  factual_has_vague_def factual_clarity_score_def factual_total_score_def

lemmas procedural_defs = count_present_def step_patterns_def procedural_step_markers_def
  procedural_step_score_def connectors_def procedural_connector_count_def
  procedural_logic_score_def action_verbs_def procedural_action_count_def
  procedural_action_score_def procedural_total_score_def

lemmas comparative_defs = count_present_def comparison_words_def
  comparative_comparison_count_def comparative_comparison_score_def dimensions_def
  comparative_dimension_count_def comparative_dimension_score_def bullet_def
  structure_pattern_def comparative_has_structure_def comparative_structure_score_def
  comparative_length_score_def comparative_total_score_def

lemmas recommendation_defs = count_present_def recommend_pattern_def
  recommendation_has_recommendation_def recommendation_recommendation_score_def
  reasoning_words_def recommendation_reasoning_count_def
  recommendation_reasoning_score_def constraint_words_def
  recommendation_constraint_count_def recommendation_constraint_score_def
  option_pattern_def recommendation_option_markers_def
  recommendation_diversity_score_def recommendation_total_score_def

lemmas scorer_defs = evaluate_factual_def evaluate_procedural_def
  evaluate_comparative_def evaluate_recommendation_def

subsection \<open>Bounds of the weighted sums\<close>

lemma factual_total_unit: "0 \<le> factual_total_score a \<and> factual_total_score a \<le> 1"
  by (simp add: factual_total_score_def factual_length_score_def
      factual_specificity_score_def factual_clarity_score_def)

lemma procedural_total_unit:
  "0 \<le> procedural_total_score a \<and> procedural_total_score a \<le> 1"
proof -
  have "0 \<le> procedural_step_score a \<and> procedural_step_score a \<le> 1"
    "0 \<le> procedural_logic_score a \<and> procedural_logic_score a \<le> 1"
    "0 \<le> procedural_action_score a \<and> procedural_action_score a \<le> 1"
    by (simp_all add: procedural_step_score_def procedural_logic_score_def
        procedural_action_score_def)
  then show ?thesis unfolding procedural_total_score_def by linarith
qed

lemma comparative_total_unit:
  "0 \<le> comparative_total_score a \<and> comparative_total_score a \<le> 1"
proof -
  have "0 \<le> comparative_comparison_score a \<and> comparative_comparison_score a \<le> 1"
    "0 \<le> comparative_dimension_score a \<and> comparative_dimension_score a \<le> 1"
    "0 \<le> comparative_structure_score a \<and> comparative_structure_score a \<le> 1"
    "0 \<le> comparative_length_score a \<and> comparative_length_score a \<le> 1"
    by (simp_all add: comparative_comparison_score_def comparative_dimension_score_def
        comparative_structure_score_def comparative_length_score_def)
  then show ?thesis unfolding comparative_total_score_def by linarith
qed

lemma recommendation_total_unit:
  "0 \<le> recommendation_total_score a \<and> recommendation_total_score a \<le> 1"
proof -
  have "0 \<le> recommendation_recommendation_score a
          \<and> recommendation_recommendation_score a \<le> 1"
    "0 \<le> recommendation_reasoning_score a \<and> recommendation_reasoning_score a \<le> 1"
    "0 \<le> recommendation_constraint_score a \<and> recommendation_constraint_score a \<le> 1"
    "0 \<le> recommendation_diversity_score a \<and> recommendation_diversity_score a \<le> 1"
    by (simp_all add: recommendation_recommendation_score_def
        recommendation_reasoning_score_def recommendation_constraint_score_def
        recommendation_diversity_score_def)
  moreover have "recommendation_total_score a =
      3 / 10 * recommendation_recommendation_score a
      + 3 / 10 * recommendation_reasoning_score a
      + 1 / 4 * recommendation_constraint_score a
      + 3 / 20 * recommendation_diversity_score a"
    by (simp add: recommendation_total_score_def)
  ultimately show ?thesis by linarith
qed

lemma total_score_fields:
  "result_field (evaluate a (py ''factual'')) ''total_score''
     = Some (PyFloat (round3 (factual_total_score a)))"
  "result_field (evaluate a (py ''procedural'')) ''total_score''
     = Some (PyFloat (round3 (procedural_total_score a)))"
  "result_field (evaluate a (py ''comparative'')) ''total_score''
     = Some (PyFloat (round3 (comparative_total_score a)))"
  "result_field (evaluate a (py ''recommendation'')) ''total_score''
     = Some (PyFloat (round3 (recommendation_total_score a)))"
  by (simp_all add: eval_defs py_def scorer_defs)

subsection \<open>Word lists\<close>

lemma vague_term_strip:
  "substr_in (py ''maybe'') (strip s) = substr_in (py ''maybe'') s"
  "substr_in (py ''might'') (strip s) = substr_in (py ''might'') s"
  "substr_in (py ''possibly'') (strip s) = substr_in (py ''possibly'') s"
  "substr_in (py ''unclear'') (strip s) = substr_in (py ''unclear'') s"
  "substr_in (py ''i don't know'') (strip s) = substr_in (py ''i don't know'') s"
  by (rule substr_in_strip; simp add: py_def isspace_def)+

lemma factual_has_vague_iff:
  "factual_has_vague answer \<longleftrightarrow>
     substr_in (py ''maybe'') (lower answer) \<or> substr_in (py ''might'') (lower answer)
     \<or> substr_in (py ''possibly'') (lower answer) \<or> substr_in (py ''unclear'') (lower answer)
     \<or> substr_in (py ''i don't know'') (lower answer)"
  by (simp add: factual_has_vague_def vague_terms_def factual_answer_lower_def
      vague_term_strip)

lemma has_contains_as:
  assumes "substr_in (py ''has'') s"
  shows "substr_in (py ''as'') s"
proof -
  from assms obtain p q where "s = p @ py ''has'' @ q" by (auto simp: substr_in_iff)
  then have "s = (p @ py ''h'') @ py ''as'' @ q" by (simp add: py_def)
  then show ?thesis unfolding substr_in_iff by blast
qed

lemma procedural_step_fields:
  "result_field (evaluate a (py ''procedural'')) ''step_markers_found''
     = Some (PyInt (int (procedural_step_markers a)))"
  "result_field (evaluate a (py ''procedural'')) ''step_score''
     = Some (PyFloat (round3 (procedural_step_score a)))"
  by (simp_all add: eval_defs py_def scorer_defs)

subsection \<open>The step patterns\<close>

lemma findall_count_pos_iff: "0 < findall_count r s \<longleftrightarrow> re_search r s"
proof (induction r s rule: findall_count.induct)
  case (1 r)
  show ?case by (simp split: list.splits)
next
  case (2 r c cs)
  show ?case
  proof (cases "mlens r (c # cs)")
    case Nil
    with 2 show ?thesis by simp
  next
    case (Cons n ns)
    then show ?thesis by simp
  qed
qed

lemma numbered_marker_occurs:
  "re_search (Cat (Many1 isdigit) (Lit (py ''.''))) s \<longleftrightarrow>
     (\<exists>p ds q. s = p @ ds @ py ''.'' @ q \<and> ds \<noteq> [] \<and> list_all isdigit ds)"
proof
  assume "re_search (Cat (Many1 isdigit) (Lit (py ''.''))) s"
  then obtain p m q where s: "s = p @ m @ q"
    and m: "m \<in> lang (Cat (Many1 isdigit) (Lit (py ''.'')))"
    unfolding re_search_iff by blast
  from m obtain ds where "m = ds @ py ''.''" "ds \<noteq> []" "list_all isdigit ds" by auto
  with s have "s = p @ ds @ py ''.'' @ q \<and> ds \<noteq> [] \<and> list_all isdigit ds" by simp
  then show "\<exists>p ds q. s = p @ ds @ py ''.'' @ q \<and> ds \<noteq> [] \<and> list_all isdigit ds"
    by blast
next
  assume "\<exists>p ds q. s = p @ ds @ py ''.'' @ q \<and> ds \<noteq> [] \<and> list_all isdigit ds"
  then obtain p ds q where s: "s = p @ ds @ py ''.'' @ q"
    and ds: "ds \<noteq> []" "list_all isdigit ds" by blast
  from ds have "ds @ py ''.'' \<in> lang (Cat (Many1 isdigit) (Lit (py ''.'')))" by simp
  moreover from s have "s = p @ (ds @ py ''.'') @ q" by simp
  ultimately show "re_search (Cat (Many1 isdigit) (Lit (py ''.''))) s"
    unfolding re_search_iff by blast
qed

lemma step_phrase_occurs:
  "re_search (Cat (Lit (py ''step '')) (Many1 isdigit)) s \<longleftrightarrow>
     (\<exists>p ds q. s = p @ py ''step '' @ ds @ q \<and> ds \<noteq> [] \<and> list_all isdigit ds)"
proof
  assume "re_search (Cat (Lit (py ''step '')) (Many1 isdigit)) s"
  then obtain p m q where s: "s = p @ m @ q"
    and m: "m \<in> lang (Cat (Lit (py ''step '')) (Many1 isdigit))"
    unfolding re_search_iff by blast
  from m obtain ds where "m = py ''step '' @ ds" "ds \<noteq> []" "list_all isdigit ds" by auto
  with s have "s = p @ py ''step '' @ ds @ q \<and> ds \<noteq> [] \<and> list_all isdigit ds" by simp
  then show "\<exists>p ds q. s = p @ py ''step '' @ ds @ q \<and> ds \<noteq> [] \<and> list_all isdigit ds"
    by blast
next
  assume "\<exists>p ds q. s = p @ py ''step '' @ ds @ q \<and> ds \<noteq> [] \<and> list_all isdigit ds"
  then obtain p ds q where s: "s = p @ py ''step '' @ ds @ q"
    and ds: "ds \<noteq> []" "list_all isdigit ds" by blast
  from ds have "py ''step '' @ ds \<in> lang (Cat (Lit (py ''step '')) (Many1 isdigit))"
    by simp
  moreover from s have "s = p @ (py ''step '' @ ds) @ q" by simp
  ultimately show "re_search (Cat (Lit (py ''step '')) (Many1 isdigit)) s"
    unfolding re_search_iff by blast
qed

lemma order_word_occurs:
  "re_search
     (Alt (Lit (py ''first'')) (Alt (Lit (py ''second'')) (Alt (Lit (py ''third''))
        (Alt (Lit (py ''then'')) (Alt (Lit (py ''next'')) (Lit (py ''finally''))))))) s
   \<longleftrightarrow> substr_in (py ''first'') s \<or> substr_in (py ''second'') s
       \<or> substr_in (py ''third'') s \<or> substr_in (py ''then'') s
       \<or> substr_in (py ''next'') s \<or> substr_in (py ''finally'') s"
  unfolding re_search_iff substr_in_iff by auto

subsection \<open>The structure pattern\<close>

lemma lang_structure_pattern:
  "m \<in> lang structure_pattern \<longleftrightarrow>
     (\<exists>ws b. m = [10] @ ws @ [b] \<and> list_all isspace ws \<and> bullet b)
     \<or> (\<exists>ds. m = ds @ py ''.'' \<and> ds \<noteq> [] \<and> list_all isdigit ds)"
  by (auto simp: structure_pattern_def)

lemma comparative_has_structure_iff:
  "comparative_has_structure answer \<longleftrightarrow>
     (\<exists>p ws b q. answer = p @ [10] @ ws @ [b] @ q \<and> list_all isspace ws \<and> bullet b)
     \<or> (\<exists>p ds q. answer = p @ ds @ py ''.'' @ q \<and> ds \<noteq> [] \<and> list_all isdigit ds)"
  (is "?L \<longleftrightarrow> ?B \<or> ?N")
proof
  assume ?L
  then obtain p m q where a: "answer = p @ m @ q" and m: "m \<in> lang structure_pattern"
    by (auto simp: comparative_has_structure_def re_search_iff)
  from m show "?B \<or> ?N" unfolding lang_structure_pattern
  proof
    assume "\<exists>ws b. m = [10] @ ws @ [b] \<and> list_all isspace ws \<and> bullet b"
    then obtain ws b where "m = [10] @ ws @ [b]" "list_all isspace ws" "bullet b" by blast
    with a have "answer = p @ [10] @ ws @ [b] @ q \<and> list_all isspace ws \<and> bullet b"
      by simp
    then show ?thesis by blast
  next
    assume "\<exists>ds. m = ds @ py ''.'' \<and> ds \<noteq> [] \<and> list_all isdigit ds"
    then obtain ds where "m = ds @ py ''.''" "ds \<noteq> []" "list_all isdigit ds" by blast
    with a have "answer = p @ ds @ py ''.'' @ q \<and> ds \<noteq> [] \<and> list_all isdigit ds"
      by simp
    then show ?thesis by blast
  qed
next
  assume "?B \<or> ?N"
  then show ?L
  proof
    assume ?B
    then obtain p ws b q where a: "answer = p @ [10] @ ws @ [b] @ q"
      and m: "list_all isspace ws" "bullet b" by blast
    from m have "[10] @ ws @ [b] \<in> lang structure_pattern"
      unfolding lang_structure_pattern by blast
    moreover from a have "answer = p @ ([10] @ ws @ [b]) @ q" by simp
    ultimately show ?L unfolding comparative_has_structure_def re_search_iff by blast
  next
    assume ?N
    then obtain p ds q where a: "answer = p @ ds @ py ''.'' @ q"
      and m: "ds \<noteq> []" "list_all isdigit ds" by blast
    from m have "ds @ py ''.'' \<in> lang structure_pattern"
      unfolding lang_structure_pattern by blast
    moreover from a have "answer = p @ (ds @ py ''.'') @ q" by simp
    ultimately show ?L unfolding comparative_has_structure_def re_search_iff by blast
  qed
qed

lemma comparative_structure_field:
  "result_field (evaluate a (py ''comparative'')) ''structure_score''
     = Some (PyFloat (round3 (comparative_structure_score a)))"
  by (simp add: eval_defs py_def scorer_defs)

lemma round3_structure: "round3 (comparative_structure_score a) = comparative_structure_score a"
  by (simp add: comparative_structure_score_def round_defs)

subsection \<open>Appending to a factual answer\<close>

lemma lower_append: "lower (a @ u) = lower a @ lower u"
  by (simp add: lower_def)

lemma substr_in_append_left: "substr_in w u \<Longrightarrow> substr_in w (a @ u)"
proof -
  assume "substr_in w u"
  then obtain p q where "u = p @ w @ q" by (auto simp: substr_in_iff)
  then have "a @ u = (a @ p) @ w @ q" by simp
  then show ?thesis unfolding substr_in_iff by blast
qed

lemma re_search_url_pattern:
  "re_search url_pattern s \<longleftrightarrow> substr_in (py ''http'') s \<or> substr_in (py ''www.'') s"
  by (auto simp: re_search_iff substr_in_iff url_pattern_def)

lemma url_word_strip:
  "substr_in (py ''http'') (strip s) = substr_in (py ''http'') s"
  "substr_in (py ''www.'') (strip s) = substr_in (py ''www.'') s"
  by (rule substr_in_strip; simp add: py_def isspace_def)+

lemma factual_has_url_iff:
  "factual_has_url x \<longleftrightarrow>
     substr_in (py ''http'') (lower x) \<or> substr_in (py ''www.'') (lower x)"
  by (simp add: factual_has_url_def factual_answer_lower_def re_search_url_pattern
      url_word_strip)

lemma factual_has_url_append:
  assumes "factual_has_url u"
  shows "factual_has_url (a @ u)"
  using assms unfolding factual_has_url_iff lower_append
  by (auto intro: substr_in_append_left)

lemma round3_specificity:
  "round3 (factual_specificity_score a) = factual_specificity_score a"
  by (simp add: factual_specificity_score_def round_defs)

lemma round3_factual_length: "round3 (factual_length_score a) = factual_length_score a"
  by (simp add: factual_length_score_def round_defs)

lemma round3_factual_clarity: "round3 (factual_clarity_score a) = factual_clarity_score a"
  by (simp add: factual_clarity_score_def round_defs)

lemma factual_fields:
  "result_field (evaluate a (py ''factual'')) ''length_score''
     = Some (PyFloat (factual_length_score a))"
  "result_field (evaluate a (py ''factual'')) ''specificity_score''
     = Some (PyFloat (factual_specificity_score a))"
  "result_field (evaluate a (py ''factual'')) ''clarity_score''
     = Some (PyFloat (factual_clarity_score a))"
  by (simp_all add: eval_defs py_def scorer_defs round3_specificity round3_factual_length
      round3_factual_clarity)

lemma specificity_gain:
  assumes "\<not> factual_has_url a" and "factual_has_url u"
  shows "factual_specificity_score a + 0.3 \<le> factual_specificity_score (a @ u)"
proof -
  have "factual_has_url (a @ u)" using assms(2) by (rule factual_has_url_append)
  moreover have "factual_has_number a \<Longrightarrow> factual_has_number (a @ u)"
    unfolding factual_has_number_def by (rule re_search_append)
  moreover have "factual_has_specific_name a \<Longrightarrow> factual_has_specific_name (a @ u)"
    unfolding factual_has_specific_name_def by (rule re_search_append)
  ultimately show ?thesis using assms(1)
    by (auto simp: factual_specificity_score_def)
qed

lemma substr_in_set: "substr_in w s \<Longrightarrow> set w \<subseteq> set s"
  by (auto simp: substr_in_iff)

lemma factual_has_number_iff: "factual_has_number s \<longleftrightarrow> list_ex isdigit s"
proof
  assume "factual_has_number s"
  then obtain p m q where s: "s = p @ m @ q" and m: "m \<noteq> []" "list_all isdigit m"
    by (auto simp: factual_has_number_def re_search_iff)
  from m have "hd m \<in> set m" "isdigit (hd m)" by (cases m; simp)+
  with s show "list_ex isdigit s" by (auto simp: list_ex_iff)
next
  assume "list_ex isdigit s"
  then obtain c where "c \<in> set s" and c: "isdigit c" by (auto simp: list_ex_iff)
  then obtain p q where "s = p @ [c] @ q" by (auto dest: split_list)
  moreover from c have "[c] \<in> lang (Many1 isdigit)" by simp
  ultimately show "factual_has_number s"
    unfolding factual_has_number_def re_search_iff by blast
qed

lemma factual_has_specific_name_upper:
  assumes "factual_has_specific_name s"
  shows "list_ex upper_AZ s"
proof -
  from assms obtain p m q where s: "s = p @ m @ q" and m: "m \<in> lang name_pattern"
    by (auto simp: factual_has_specific_name_def re_search_iff)
  from m obtain c v where "m = [c] @ v" "upper_AZ c" by (auto simp: name_pattern_def)
  with s show ?thesis by (auto simp: list_ex_iff)
qed

lemma lower_fixed: "list_all (\<lambda>c. lower_cp c = [c]) s \<Longrightarrow> lower s = s"
  by (induction s) (simp_all add: lower_def)

text \<open>
  A long appended URL can cost more length score than it gains in specificity: 150
  letters score 0.6, and with a URL of 151 code points behind them 0.57.
\<close>

lemma long_url_lowers_total:
  "length (py ''http://'' @ replicate 144 (of_char CHR ''a'')) = 151
   \<and> result_field (evaluate (replicate 150 (of_char CHR ''a'')) (py ''factual''))
         ''total_score'' = Some (PyFloat 0.6)
   \<and> result_field
         (evaluate (replicate 150 (of_char CHR ''a'')
                      @ py ''http://'' @ replicate 144 (of_char CHR ''a''))
            (py ''factual''))
         ''total_score'' = Some (PyFloat 0.57)"
proof -
  let ?a = "replicate 150 (of_char CHR ''a'') :: pystr"
  let ?u = "py ''http://'' @ replicate 144 (of_char CHR ''a'')"
  have set_a: "set ?a = {97}" and set_au: "set (?a @ ?u) = {97, 104, 116, 112, 58, 47}"
    by (auto simp: py_def)
  have low: "lower ?a = ?a" "lower (?a @ ?u) = ?a @ ?u"
    by (rule lower_fixed; simp add: list_all_iff py_def lower_cp_def)+
  have num: "\<not> factual_has_number ?a" "\<not> factual_has_number (?a @ ?u)"
    unfolding factual_has_number_iff list_ex_iff set_a set_au
    by (simp_all add: isdigit_ascii)
  have name: "\<not> factual_has_specific_name ?a" "\<not> factual_has_specific_name (?a @ ?u)"
    using factual_has_specific_name_upper[of ?a] factual_has_specific_name_upper[of "?a @ ?u"]
    unfolding list_ex_iff set_a set_au by (auto simp: upper_AZ_def)
  have url_a: "\<not> factual_has_url ?a"
    unfolding factual_has_url_iff low
    using substr_in_set[of "py ''http''" ?a] substr_in_set[of "py ''www.''" ?a]
    unfolding set_a by (auto simp: py_def)
  have "factual_has_url ?u"
    unfolding factual_has_url_iff lower_append by (simp add: str_defs)
  then have url_au: "factual_has_url (?a @ ?u)" by (rule factual_has_url_append)
  have vague: "\<not> factual_has_vague ?a" "\<not> factual_has_vague (?a @ ?u)"
    unfolding factual_has_vague_iff low
    using substr_in_set[of "py ''maybe''" ?a] substr_in_set[of "py ''maybe''" "?a @ ?u"]
      substr_in_set[of "py ''might''" ?a] substr_in_set[of "py ''might''" "?a @ ?u"]
      substr_in_set[of "py ''possibly''" ?a] substr_in_set[of "py ''possibly''" "?a @ ?u"]
      substr_in_set[of "py ''unclear''" ?a] substr_in_set[of "py ''unclear''" "?a @ ?u"]
      substr_in_set[of "py ''i don't know''" ?a]
      substr_in_set[of "py ''i don't know''" "?a @ ?u"]
    unfolding set_a set_au by (auto simp: py_def)
  have len: "factual_length_score ?a = 1" "factual_length_score (?a @ ?u) = 0.5"
    by (simp_all add: factual_length_score_def py_def)
  have t: "factual_total_score ?a = 0.6" "factual_total_score (?a @ ?u) = 0.57"
    unfolding factual_total_score_def factual_specificity_score_def
      factual_clarity_score_def len
    using num name url_a url_au vague by simp_all
  have r: "round3 0.6 = 0.6" "round3 0.57 = 0.57" by (simp_all add: round_defs)
  show ?thesis unfolding total_score_fields t r by (simp add: py_def)
qed

section \<open>The claims\<close>

subsection \<open>The dispatcher\<close>

text \<open>
  Claim C2. \<^verbatim>\<open>evaluate(answer, category)\<close> fails if and only if the category is not one
  of the four strings factual, procedural, comparative, recommendation. For an unknown
  category there is no fallback score: the call ends in the error, which carries the
  offending name. For a known category it returns a result for every answer. The
  error the spec calls \<^verbatim>\<open>InvalidCategory\<close> is the \<^verbatim>\<open>ValueError\<close> the source raises.
\<close>

theorem evaluate_raises_iff_unknown_type:
  "((\<exists>e. evaluate answer question_type = Inl e) \<longleftrightarrow>
      question_type \<notin> {py ''factual'', py ''procedural'', py ''comparative'',
                          py ''recommendation''})
   \<and> ((\<exists>r. evaluate answer question_type = Inr r) \<longleftrightarrow>
      question_type \<in> {py ''factual'', py ''procedural'', py ''comparative'',
                          py ''recommendation''})
   \<and> (question_type \<notin> {py ''factual'', py ''procedural'', py ''comparative'',
                          py ''recommendation''} \<longrightarrow>
      evaluate answer question_type
        = Inl (ValueError (py ''Unknown question type: '' @ question_type)))"
  by (auto simp: evaluate_def evaluators_def)

theorem evaluate_raises_iff_unknown_type_witness:
  "evaluate (py ''It opens at 9.'') (py ''unknown_type'')
     = Inl (ValueError (py ''Unknown question type: unknown_type''))
   \<and> (\<exists>r. evaluate (py ''It opens at 9.'') (py ''factual'') = Inr r)"
  using evaluate_raises_iff_unknown_type[of "py ''It opens at 9.''" "py ''unknown_type''"]
    evaluate_raises_iff_unknown_type[of "py ''It opens at 9.''" "py ''factual''"]
  by (simp add: py_def)

subsection \<open>The empty answer\<close>

text \<open>
  Claim C3, as stated: \<^verbatim>\<open>evaluate("", "factual")\<close> has \<^verbatim>\<open>total_score\<close> 0.3. It does
  not: the length and the clarity score are both 1.0 and each weighs 0.3.
\<close>

theorem factual_empty_answer_total_not_0_3:
  "result_field (evaluate (py '''') (py ''factual'')) ''total_score'' \<noteq> Some (PyFloat 0.3)"
  by (simp add: eval_defs evaluate_factual_def factual_defs str_defs round_defs)

text \<open>
  Claim C3, amended: \<^verbatim>\<open>evaluate("", "factual")\<close> has \<^verbatim>\<open>length_score\<close> 1.0,
  \<^verbatim>\<open>specificity_score\<close> 0.0, \<^verbatim>\<open>clarity_score\<close> 1.0 and \<^verbatim>\<open>total_score\<close> 0.6.
\<close>

theorem factual_empty_answer:
  "result_field (evaluate (py '''') (py ''factual'')) ''length_score'' = Some (PyFloat 1.0)
   \<and> result_field (evaluate (py '''') (py ''factual'')) ''specificity_score''
       = Some (PyFloat 0.0)
   \<and> result_field (evaluate (py '''') (py ''factual'')) ''clarity_score'' = Some (PyFloat 1.0)
   \<and> result_field (evaluate (py '''') (py ''factual'')) ''total_score'' = Some (PyFloat 0.6)"
  by (simp add: eval_defs evaluate_factual_def factual_defs str_defs round_defs)

text \<open>
  Claim C4, as stated: for the empty answer every sub-score is at its minimum and the
  length-based scores take their lowest band. The factual scorer rewards a short
  answer: the empty answer gets the highest band 1.0 of \<^verbatim>\<open>length_score\<close>, where an
  answer of 301 code points gets the lowest band 0.5; and its \<^verbatim>\<open>clarity_score\<close> is
  1.0, where an answer with a vague marker gets 0.0.
\<close>

theorem empty_answer_factual_scores_not_lowest:
  "result_field (evaluate (py '''') (py ''factual'')) ''length_score'' = Some (PyFloat 1.0)
   \<and> result_field (evaluate (replicate 301 (of_char CHR ''a'')) (py ''factual''))
         ''length_score'' = Some (PyFloat 0.5)
   \<and> result_field (evaluate (py '''') (py ''factual'')) ''clarity_score'' = Some (PyFloat 1.0)
   \<and> result_field (evaluate (py ''maybe'') (py ''factual'')) ''clarity_score''
       = Some (PyFloat 0.0)"
  by (simp add: eval_defs evaluate_factual_def factual_length_score_def
      factual_clarity_score_def factual_has_vague_def vague_terms_def
      factual_answer_lower_def str_defs round_defs)

text \<open>
  Claim C4, amended: for the empty answer and each of the four categories
  \<^verbatim>\<open>evaluate\<close> returns a result and raises nothing. In it every pattern count is zero,
  every boolean detector is false and every sub-score computed from a count or a
  detector of presence is 0.0; the comparative \<^verbatim>\<open>length_score\<close> takes its lowest band
  0.4 and \<^verbatim>\<open>structure_score\<close> its lower value 0.5. The factual \<^verbatim>\<open>length_score\<close> takes
  its highest band 1.0 and the factual \<^verbatim>\<open>clarity_score\<close> is 1.0.
\<close>

theorem empty_answer_results:
  "evaluate (py '''') (py ''factual'') =
     Inr [(''category'', PyStr (py ''factual'')),
          (''length_score'', PyFloat 1.0),
          (''specificity_score'', PyFloat 0.0),
          (''clarity_score'', PyFloat 1.0),
          (''total_score'', PyFloat 0.6),
          (''answer_length'', PyInt 0),
          (''has_specific_info'', PyBool False)]
   \<and> evaluate (py '''') (py ''procedural'') =
     Inr [(''category'', PyStr (py ''procedural'')),
          (''step_score'', PyFloat 0.0),
          (''logic_score'', PyFloat 0.0),
          (''action_score'', PyFloat 0.0),
          (''total_score'', PyFloat 0.0),
          (''step_markers_found'', PyInt 0),
          (''connectors_found'', PyInt 0),
          (''actions_found'', PyInt 0)]
   \<and> evaluate (py '''') (py ''comparative'') =
     Inr [(''category'', PyStr (py ''comparative'')),
          (''comparison_score'', PyFloat 0.0),
          (''dimension_score'', PyFloat 0.0),
          (''structure_score'', PyFloat 0.5),
          (''length_score'', PyFloat 0.4),
          (''total_score'', PyFloat 0.18),
          (''comparison_words_found'', PyInt 0),
          (''dimensions_found'', PyInt 0)]
   \<and> evaluate (py '''') (py ''recommendation'') =
     Inr [(''category'', PyStr (py ''recommendation'')),
          (''recommendation_score'', PyFloat 0.0),
          (''reasoning_score'', PyFloat 0.0),
          (''constraint_score'', PyFloat 0.0),
          (''diversity_score'', PyFloat 0.0),
          (''total_score'', PyFloat 0.0),
          (''has_recommendation'', PyBool False),
          (''reasoning_indicators'', PyInt 0),
          (''constraint_awareness'', PyInt 0)]"
  by (simp add: eval_defs scorer_defs factual_defs procedural_defs comparative_defs
      recommendation_defs str_defs round_defs)

subsection \<open>The range of the total\<close>

text \<open>
  Claim C1. For every answer, the empty one included, and each of the four categories,
  the \<^verbatim>\<open>total_score\<close> of the result of \<^verbatim>\<open>evaluate\<close> lies in the closed interval from
  0.0 to 1.0.
\<close>

theorem total_score_in_unit_interval:
  assumes "question_type \<in> {py ''factual'', py ''procedural'', py ''comparative'',
                               py ''recommendation''}"
  shows "\<exists>x. result_field (evaluate answer question_type) ''total_score'' = Some (PyFloat x)
             \<and> 0 \<le> x \<and> x \<le> 1"
  using assms total_score_fields[of answer]
    round3_unit[of "factual_total_score answer"] factual_total_unit[of answer]
    round3_unit[of "procedural_total_score answer"] procedural_total_unit[of answer]
    round3_unit[of "comparative_total_score answer"] comparative_total_unit[of answer]
    round3_unit[of "recommendation_total_score answer"] recommendation_total_unit[of answer]
  by auto

theorem total_score_in_unit_interval_witness:
  "\<exists>x. result_field (evaluate (py '''') (py ''comparative'')) ''total_score''
          = Some (PyFloat x) \<and> 0 \<le> x \<and> x \<le> 1"
  using total_score_in_unit_interval[of "py ''comparative''" "py ''''"] by simp

subsection \<open>The vague-language gate\<close>

text \<open>
  Claim C6. For every answer the factual \<^verbatim>\<open>clarity_score\<close> is 0.0 if the lower-cased
  text contains one of the markers maybe, might, possibly, unclear, i don't know, and
  1.0 otherwise, whatever else the answer holds; the result reports that value. The
  source looks for the markers in the stripped lower-cased text, which has them
  exactly when the lower-cased text has them. For \<^verbatim>\<open>"maybe it is unclear"\<close> the score
  is 0.0.
\<close>

theorem factual_clarity_gate:
  "factual_clarity_score answer =
     (if substr_in (py ''maybe'') (lower answer) \<or> substr_in (py ''might'') (lower answer)
         \<or> substr_in (py ''possibly'') (lower answer)
         \<or> substr_in (py ''unclear'') (lower answer)
         \<or> substr_in (py ''i don't know'') (lower answer)
      then 0.0 else 1.0)
   \<and> result_field (evaluate answer (py ''factual'')) ''clarity_score''
       = Some (PyFloat (factual_clarity_score answer))
   \<and> result_field (evaluate (py ''maybe it is unclear'') (py ''factual'')) ''clarity_score''
       = Some (PyFloat 0.0)"
proof -
  have 1: "factual_clarity_score answer =
     (if substr_in (py ''maybe'') (lower answer) \<or> substr_in (py ''might'') (lower answer)
         \<or> substr_in (py ''possibly'') (lower answer)
         \<or> substr_in (py ''unclear'') (lower answer)
         \<or> substr_in (py ''i don't know'') (lower answer)
      then 0.0 else 1.0)"
    unfolding factual_clarity_score_def factual_has_vague_iff by simp
  have "round3 (factual_clarity_score answer) = factual_clarity_score answer"
    by (simp add: factual_clarity_score_def round3_0 round3_1)
  then have 2: "result_field (evaluate answer (py ''factual'')) ''clarity_score''
       = Some (PyFloat (factual_clarity_score answer))"
    by (simp add: eval_defs py_def scorer_defs)
  have 3: "result_field (evaluate (py ''maybe it is unclear'') (py ''factual''))
       ''clarity_score'' = Some (PyFloat 0.0)"
    by (simp add: eval_defs evaluate_factual_def factual_clarity_score_def
        factual_has_vague_def vague_terms_def factual_answer_lower_def str_defs round3_0)
  from 1 2 3 show ?thesis by blast
qed

theorem factual_clarity_gate_witness:
  "factual_clarity_score (py ''It might open at 9 on Kent Ridge Road'') = 0.0
   \<and> factual_clarity_score (py ''It opens at 9 on Kent Ridge Road'') = 1.0"
  using factual_clarity_gate[of "py ''It might open at 9 on Kent Ridge Road''"]
    factual_clarity_gate[of "py ''It opens at 9 on Kent Ridge Road''"]
  by (simp add: str_defs)

subsection \<open>Word lists match substrings\<close>

text \<open>
  Claim C9. The word lists are tested by substring containment on the lower-cased
  answer, not word by word: when the lower-cased answer contains \<^verbatim>\<open>has\<close>, the
  recommendation scorer counts both \<^verbatim>\<open>as\<close> and \<^verbatim>\<open>has\<close> among the reasoning words, so
  the count is at least 2 and \<^verbatim>\<open>reasoning_score\<close> is 1.0.
\<close>

theorem reasoning_has_counts_twice:
  assumes "substr_in (py ''has'') (lower answer)"
  shows "py ''as'' \<in> set (filter (\<lambda>w. substr_in w (lower answer)) reasoning_words)
    \<and> py ''has'' \<in> set (filter (\<lambda>w. substr_in w (lower answer)) reasoning_words)
    \<and> 2 \<le> recommendation_reasoning_count answer
    \<and> recommendation_reasoning_score answer = 1.0
    \<and> result_field (evaluate answer (py ''recommendation'')) ''reasoning_indicators''
        = Some (PyInt (int (recommendation_reasoning_count answer)))
    \<and> result_field (evaluate answer (py ''recommendation'')) ''reasoning_score''
        = Some (PyFloat 1.0)"
proof -
  have as: "substr_in (py ''as'') (lower answer)" using assms by (rule has_contains_as)
  have 1: "py ''as'' \<in> set (filter (\<lambda>w. substr_in w (lower answer)) reasoning_words)"
    "py ''has'' \<in> set (filter (\<lambda>w. substr_in w (lower answer)) reasoning_words)"
    using as assms by (simp_all add: reasoning_words_def)
  have 2: "2 \<le> recommendation_reasoning_count answer"
    using as assms
    by (simp add: recommendation_reasoning_count_def count_present_def reasoning_words_def)
  then have "(2::rat) \<le> of_nat (recommendation_reasoning_count answer)"
    by (metis of_nat_le_iff of_nat_numeral)
  then have 3: "recommendation_reasoning_score answer = 1.0"
    by (simp add: recommendation_reasoning_score_def)
  have 4: "result_field (evaluate answer (py ''recommendation'')) ''reasoning_indicators''
        = Some (PyInt (int (recommendation_reasoning_count answer)))"
    by (simp add: eval_defs py_def scorer_defs)
  have 5: "result_field (evaluate answer (py ''recommendation'')) ''reasoning_score''
        = Some (PyFloat 1.0)"
    using 3 by (simp add: eval_defs py_def scorer_defs round3_1)
  from 1 2 3 4 5 show ?thesis by blast
qed

theorem reasoning_has_counts_twice_witness:
  "substr_in (py ''has'') (lower (py ''Hall B has a gym''))
   \<and> result_field (evaluate (py ''Hall B has a gym'') (py ''recommendation''))
        ''reasoning_score'' = Some (PyFloat 1.0)"
proof -
  have h: "substr_in (py ''has'') (lower (py ''Hall B has a gym''))"
    by (simp add: str_defs)
  from reasoning_has_counts_twice[OF h] h show ?thesis by blast
qed

subsection \<open>Step markers\<close>

text \<open>
  Claim C7. For every answer \<^verbatim>\<open>step_markers\<close> is the sum of the match counts of three
  patterns on the lower-cased text: digits followed by a period, the phrase \<^verbatim>\<open>step\<close>
  followed by a space and digits, and the alternation of the words first, second,
  third, then, next, finally. Each count is positive exactly when the text has such
  an occurrence, a digit being any Unicode decimal digit. \<^verbatim>\<open>step_score\<close> is
  \<^verbatim>\<open>min(step_markers / 3.0, 1.0)\<close>, and the result reports the count and the score
  rounded to 3 decimals. For the answer
  \<^verbatim>\<open>"Step 1. Go to Central Library. Step 2. Fill the form. Step 3. Submit it."\<close> the
  count is 6, which is at least 3, and the score is 1.0. With the Arabic-Indic digit
  three (code point 1635) in place of the digit, \<^verbatim>\<open>step\<close>, the digit, a period and
  \<^verbatim>\<open>go\<close> count 2; \<^verbatim>\<open>"12. go"\<close> counts 1, the run of digits being one match.
\<close>

theorem step_markers_sum_of_three_patterns:
  "procedural_step_markers answer =
     findall_count (Cat (Many1 isdigit) (Lit (py ''.''))) (lower answer)
     + findall_count (Cat (Lit (py ''step '')) (Many1 isdigit)) (lower answer)
     + findall_count
         (Alt (Lit (py ''first'')) (Alt (Lit (py ''second'')) (Alt (Lit (py ''third''))
            (Alt (Lit (py ''then'')) (Alt (Lit (py ''next'')) (Lit (py ''finally'')))))))
         (lower answer)
   \<and> (0 < findall_count (Cat (Many1 isdigit) (Lit (py ''.''))) (lower answer) \<longleftrightarrow>
        (\<exists>p ds q. lower answer = p @ ds @ py ''.'' @ q \<and> ds \<noteq> [] \<and> list_all isdigit ds))
   \<and> (0 < findall_count (Cat (Lit (py ''step '')) (Many1 isdigit)) (lower answer) \<longleftrightarrow>
        (\<exists>p ds q. lower answer = p @ py ''step '' @ ds @ q \<and> ds \<noteq> []
             \<and> list_all isdigit ds))
   \<and> (0 < findall_count
         (Alt (Lit (py ''first'')) (Alt (Lit (py ''second'')) (Alt (Lit (py ''third''))
            (Alt (Lit (py ''then'')) (Alt (Lit (py ''next'')) (Lit (py ''finally'')))))))
         (lower answer) \<longleftrightarrow>
        substr_in (py ''first'') (lower answer) \<or> substr_in (py ''second'') (lower answer)
        \<or> substr_in (py ''third'') (lower answer) \<or> substr_in (py ''then'') (lower answer)
        \<or> substr_in (py ''next'') (lower answer) \<or> substr_in (py ''finally'') (lower answer))
   \<and> procedural_step_score answer = min (of_nat (procedural_step_markers answer) / 3.0) 1.0
   \<and> result_field (evaluate answer (py ''procedural'')) ''step_markers_found''
       = Some (PyInt (int (procedural_step_markers answer)))
   \<and> result_field (evaluate answer (py ''procedural'')) ''step_score''
       = Some (PyFloat (round3 (procedural_step_score answer)))
   \<and> procedural_step_markers
         (py ''Step 1. Go to Central Library. Step 2. Fill the form. Step 3. Submit it.'') = 6
   \<and> 3 \<le> procedural_step_markers
         (py ''Step 1. Go to Central Library. Step 2. Fill the form. Step 3. Submit it.'')
   \<and> procedural_step_score
         (py ''Step 1. Go to Central Library. Step 2. Fill the form. Step 3. Submit it.'') = 1.0
   \<and> result_field
         (evaluate (py ''Step 1. Go to Central Library. Step 2. Fill the form. Step 3. Submit it.'')
            (py ''procedural''))
         ''step_score'' = Some (PyFloat 1.0)
   \<and> procedural_step_markers (py ''step '' @ [1635] @ py ''. go'') = 2
   \<and> procedural_step_markers (py ''12. go'') = 1"
proof -
  let ?a = "py ''Step 1. Go to Central Library. Step 2. Fill the form. Step 3. Submit it.''"
  have 1: "procedural_step_markers answer =
     findall_count (Cat (Many1 isdigit) (Lit (py ''.''))) (lower answer)
     + findall_count (Cat (Lit (py ''step '')) (Many1 isdigit)) (lower answer)
     + findall_count
         (Alt (Lit (py ''first'')) (Alt (Lit (py ''second'')) (Alt (Lit (py ''third''))
            (Alt (Lit (py ''then'')) (Alt (Lit (py ''next'')) (Lit (py ''finally'')))))))
         (lower answer)"
    by (simp add: procedural_step_markers_def step_patterns_def)
  have 2: "procedural_step_score answer
             = min (of_nat (procedural_step_markers answer) / 3.0) 1.0"
    by (simp add: procedural_step_score_def)
  have 3: "result_field (evaluate answer (py ''procedural'')) ''step_markers_found''
       = Some (PyInt (int (procedural_step_markers answer)))"
    "result_field (evaluate answer (py ''procedural'')) ''step_score''
       = Some (PyFloat (round3 (procedural_step_score answer)))"
    by (rule procedural_step_fields)+
  have 4: "procedural_step_markers ?a = 6"
    by (simp add: procedural_step_markers_def step_patterns_def str_defs)
  then have 5: "procedural_step_score ?a = 1.0"
    by (simp add: procedural_step_score_def)
  have 6: "result_field (evaluate ?a (py ''procedural'')) ''step_score'' = Some (PyFloat 1.0)"
    unfolding procedural_step_fields 5 by (simp add: round3_1)
  from 4 have 7: "3 \<le> procedural_step_markers ?a" by simp
  have 8: "procedural_step_markers (py ''step '' @ [1635] @ py ''. go'') = 2"
    "procedural_step_markers (py ''12. go'') = 1"
    by (simp_all add: procedural_step_markers_def step_patterns_def str_defs
        isdigit_beyond_ascii)
  note 9 = numbered_marker_occurs[of "lower answer"] step_phrase_occurs[of "lower answer"]
    order_word_occurs[of "lower answer"]
  show ?thesis
    unfolding findall_count_pos_iff 9 using 1 2 3 4 5 6 7 8 by blast
qed

theorem step_markers_sum_of_three_patterns_witness:
  "procedural_step_markers (py ''First, go to step 2. Then submit.'') = 4
   \<and> 0 < findall_count (Cat (Many1 isdigit) (Lit (py ''.'')))
       (lower (py ''Step '' @ [1635] @ py ''. Go''))"
proof -
  have "procedural_step_markers (py ''First, go to step 2. Then submit.'') = 4"
    using step_markers_sum_of_three_patterns[of "py ''First, go to step 2. Then submit.''"]
    by (simp add: str_defs)
  moreover have "lower (py ''Step '' @ [1635] @ py ''. Go'')
      = py ''step '' @ [1635] @ py ''.'' @ py '' go''"
    by (simp add: str_defs)
  then have "\<exists>p ds q. lower (py ''Step '' @ [1635] @ py ''. Go'') = p @ ds @ py ''.'' @ q
      \<and> ds \<noteq> [] \<and> list_all isdigit ds"
    using isdigit_beyond_ascii(1) by (intro exI[of _ "py ''step ''"] exI[of _ "[1635]"]
      exI[of _ "py '' go''"]) simp
  then have "0 < findall_count (Cat (Many1 isdigit) (Lit (py ''.'')))
       (lower (py ''Step '' @ [1635] @ py ''. Go''))"
    using step_markers_sum_of_three_patterns[of "py ''Step '' @ [1635] @ py ''. Go''"]
    by blast
  ultimately show ?thesis by blast
qed

subsection \<open>Rounding after the summation\<close>

text \<open>
  Claim C10. In every result \<^verbatim>\<open>total_score\<close> is the weighted sum of the sub-scores
  before rounding, rounded to 3 decimals after the summation. So it can differ from
  the weighted sum of the rounded sub-scores the same result reports: the procedural
  answer \<^verbatim>\<open>"1."\<close> has one step marker, reports \<^verbatim>\<open>step_score\<close> 0.333 and
  \<^verbatim>\<open>total_score\<close> 0.133, where the weighted sum of the reported sub-scores is 0.1332.
\<close>

theorem total_rounded_after_summation:
  "result_field (evaluate answer (py ''factual'')) ''total_score''
     = Some (PyFloat (round3 (0.3 * factual_length_score answer
                              + 0.4 * factual_specificity_score answer
                              + 0.3 * factual_clarity_score answer)))
   \<and> result_field (evaluate answer (py ''procedural'')) ''total_score''
     = Some (PyFloat (round3 (0.4 * procedural_step_score answer
                              + 0.3 * procedural_logic_score answer
                              + 0.3 * procedural_action_score answer)))
   \<and> result_field (evaluate answer (py ''comparative'')) ''total_score''
     = Some (PyFloat (round3 (0.3 * comparative_comparison_score answer
                              + 0.3 * comparative_dimension_score answer
                              + 0.2 * comparative_structure_score answer
                              + 0.2 * comparative_length_score answer)))
   \<and> result_field (evaluate answer (py ''recommendation'')) ''total_score''
     = Some (PyFloat (round3 (0.3 * recommendation_recommendation_score answer
                              + 0.3 * recommendation_reasoning_score answer
                              + 0.25 * recommendation_constraint_score answer
                              + 0.15 * recommendation_diversity_score answer)))
   \<and> evaluate (py ''1.'') (py ''procedural'') =
       Inr [(''category'', PyStr (py ''procedural'')),
            (''step_score'', PyFloat 0.333),
            (''logic_score'', PyFloat 0.0),
            (''action_score'', PyFloat 0.0),
            (''total_score'', PyFloat 0.133),
            (''step_markers_found'', PyInt 1),
            (''connectors_found'', PyInt 0),
            (''actions_found'', PyInt 0)]
   \<and> (0.4 * 0.333 + 0.3 * 0.0 + 0.3 * 0.0 :: rat) \<noteq> 0.133"
proof -
  have "evaluate (py ''1.'') (py ''procedural'') =
       Inr [(''category'', PyStr (py ''procedural'')),
            (''step_score'', PyFloat 0.333),
            (''logic_score'', PyFloat 0.0),
            (''action_score'', PyFloat 0.0),
            (''total_score'', PyFloat 0.133),
            (''step_markers_found'', PyInt 1),
            (''connectors_found'', PyInt 0),
            (''actions_found'', PyInt 0)]"
    by (simp add: eval_defs evaluate_procedural_def procedural_defs str_defs round_defs)
  moreover have "(0.4 * 0.333 + 0.3 * 0.0 + 0.3 * 0.0 :: rat) \<noteq> 0.133" by simp
  ultimately show ?thesis
    by (simp only: total_score_fields factual_total_score_def procedural_total_score_def
        comparative_total_score_def recommendation_total_score_def simp_thms)
qed

theorem total_rounded_after_summation_witness:
  "result_field (evaluate (py ''First open the form, then submit it.'') (py ''procedural''))
     ''total_score'' = Some (PyFloat 0.617)"
proof -
  let ?a = "py ''First open the form, then submit it.''"
  have e: "0.4 * procedural_step_score ?a + 0.3 * procedural_logic_score ?a
          + 0.3 * procedural_action_score ?a = 37 / 60"
    by (simp add: procedural_defs str_defs)
  have r: "round3 (37 / 60) = 0.617" by (simp add: round_defs)
  have f: "result_field (evaluate ?a (py ''procedural'')) ''total_score''
     = Some (PyFloat (round3 (0.4 * procedural_step_score ?a
                              + 0.3 * procedural_logic_score ?a
                              + 0.3 * procedural_action_score ?a)))"
    using total_rounded_after_summation[of ?a] by blast
  show ?thesis unfolding f e r by (rule refl)
qed

subsection \<open>Structure of a comparative answer\<close>

text \<open>
  Claim C8. For every answer the comparative \<^verbatim>\<open>structure_score\<close> is exactly 1.0 when
  the answer contains a newline (code point 10) followed by any run of white space and
  then a bullet character (hyphen, U+2022 or asterisk), or contains somewhere a
  non-empty run of decimal digits, of any script, followed by a period; it is exactly
  0.5 otherwise. The result reports that value, and it is never zero. A fullwidth
  digit one (code point 65297) and a period give 1.0, as \<^verbatim>\<open>"2. cost"\<close> does;
  \<^verbatim>\<open>"cost 2"\<close> gives 0.5.
\<close>

theorem structure_score_one_or_half:
  "comparative_structure_score answer =
     (if (\<exists>p ws b q. answer = p @ [10] @ ws @ [b] @ q \<and> list_all isspace ws \<and> bullet b)
         \<or> (\<exists>p ds q. answer = p @ ds @ py ''.'' @ q \<and> ds \<noteq> [] \<and> list_all isdigit ds)
      then 1.0 else 0.5)
   \<and> result_field (evaluate answer (py ''comparative'')) ''structure_score''
       = Some (PyFloat (comparative_structure_score answer))
   \<and> comparative_structure_score answer \<noteq> 0
   \<and> result_field (evaluate ([65297] @ py ''. cost'') (py ''comparative''))
         ''structure_score'' = Some (PyFloat 1.0)
   \<and> result_field (evaluate (py ''2. cost'') (py ''comparative''))
         ''structure_score'' = Some (PyFloat 1.0)
   \<and> result_field (evaluate (py ''cost 2'') (py ''comparative''))
         ''structure_score'' = Some (PyFloat 0.5)"
proof -
  have 1: "comparative_structure_score answer =
     (if (\<exists>p ws b q. answer = p @ [10] @ ws @ [b] @ q \<and> list_all isspace ws \<and> bullet b)
         \<or> (\<exists>p ds q. answer = p @ ds @ py ''.'' @ q \<and> ds \<noteq> [] \<and> list_all isdigit ds)
      then 1.0 else 0.5)"
    unfolding comparative_structure_score_def comparative_has_structure_iff ..
  have 2: "result_field (evaluate answer (py ''comparative'')) ''structure_score''
       = Some (PyFloat (comparative_structure_score answer))"
    by (simp only: comparative_structure_field round3_structure)
  have 3: "comparative_structure_score answer \<noteq> 0"
    by (simp add: comparative_structure_score_def)
  have 4: "result_field (evaluate ([65297] @ py ''. cost'') (py ''comparative''))
         ''structure_score'' = Some (PyFloat 1.0)"
    "result_field (evaluate (py ''2. cost'') (py ''comparative''))
         ''structure_score'' = Some (PyFloat 1.0)"
    "result_field (evaluate (py ''cost 2'') (py ''comparative''))
         ''structure_score'' = Some (PyFloat 0.5)"
    unfolding comparative_structure_field round3_structure
    by (simp_all add: comparative_structure_score_def comparative_has_structure_def
        structure_pattern_def bullet_def str_defs isdigit_beyond_ascii)
  from 1 2 3 4 show ?thesis by blast
qed

theorem structure_score_one_or_half_witness:
  "result_field (evaluate (py ''Both halls:'' @ [10] @ py ''  - UTown is near'')
       (py ''comparative'')) ''structure_score'' = Some (PyFloat 1.0)
   \<and> result_field (evaluate (py ''Both halls are near.'')
       (py ''comparative'')) ''structure_score'' = Some (PyFloat 0.5)
   \<and> comparative_structure_score (py ''Hall '' @ [1635] @ py ''. costs less'') = 1.0"
proof -
  have "result_field (evaluate (py ''Both halls:'' @ [10] @ py ''  - UTown is near'')
       (py ''comparative'')) ''structure_score'' = Some (PyFloat 1.0)
   \<and> result_field (evaluate (py ''Both halls are near.'')
       (py ''comparative'')) ''structure_score'' = Some (PyFloat 0.5)"
    using structure_score_one_or_half[of "py ''Both halls:'' @ [10] @ py ''  - UTown is near''"]
      structure_score_one_or_half[of "py ''Both halls are near.''"]
    by (simp add: comparative_structure_score_def comparative_has_structure_def
        structure_pattern_def bullet_def str_defs)
  moreover have "\<exists>p ds q. py ''Hall '' @ [1635] @ py ''. costs less'' = p @ ds @ py ''.'' @ q
      \<and> ds \<noteq> [] \<and> list_all isdigit ds"
    using isdigit_beyond_ascii(1) by (intro exI[of _ "py ''Hall ''"] exI[of _ "[1635]"]
      exI[of _ "py '' costs less''"]) (simp add: py_def)
  then have "comparative_structure_score (py ''Hall '' @ [1635] @ py ''. costs less'') = 1.0"
    using structure_score_one_or_half[of "py ''Hall '' @ [1635] @ py ''. costs less''"]
    by simp
  ultimately show ?thesis by blast
qed

subsection \<open>Appending a URL to a factual answer\<close>

text \<open>
  Claim C5, as stated: appending a well-formed URL to a factual answer without one
  never lowers \<^verbatim>\<open>total_score\<close>. It can: the clarity gate reads the whole answer, the
  URL included, so \<^verbatim>\<open>"See "\<close> scores 0.6 and \<^verbatim>\<open>"See http://maybe.com"\<close> scores 0.42.
\<close>

theorem url_with_vague_word_lowers_total:
  "\<not> substr_in (py ''http'') (lower (py ''See ''))
   \<and> \<not> substr_in (py ''www.'') (lower (py ''See ''))
   \<and> substr_in (py ''http'') (lower (py ''http://maybe.com''))
   \<and> result_field (evaluate (py ''See '') (py ''factual'')) ''total_score''
       = Some (PyFloat 0.6)
   \<and> result_field (evaluate (py ''See '' @ py ''http://maybe.com'') (py ''factual''))
         ''total_score'' = Some (PyFloat 0.42)"
  by (simp add: eval_defs evaluate_factual_def factual_defs str_defs round_defs)

text \<open>
  Claim C5, amended: for the factual category, for every answer whose lower-cased text
  contains neither \<^verbatim>\<open>http\<close> nor \<^verbatim>\<open>www.\<close>, appending a text whose lower-cased form
  contains one of them raises the reported \<^verbatim>\<open>specificity_score\<close> by at least 0.3; and
  when the reported \<^verbatim>\<open>length_score\<close> and \<^verbatim>\<open>clarity_score\<close> are the same before and
  after, the reported \<^verbatim>\<open>total_score\<close> does not decrease.
\<close>

theorem url_raises_specificity:
  assumes "\<not> substr_in (py ''http'') (lower answer)"
    and "\<not> substr_in (py ''www.'') (lower answer)"
    and "substr_in (py ''http'') (lower url) \<or> substr_in (py ''www.'') (lower url)"
  shows "(\<exists>s s'. result_field (evaluate answer (py ''factual'')) ''specificity_score''
                   = Some (PyFloat s)
             \<and> result_field (evaluate (answer @ url) (py ''factual'')) ''specificity_score''
                   = Some (PyFloat s')
             \<and> s + 0.3 \<le> s')
    \<and> (result_field (evaluate (answer @ url) (py ''factual'')) ''length_score''
          = result_field (evaluate answer (py ''factual'')) ''length_score''
        \<and> result_field (evaluate (answer @ url) (py ''factual'')) ''clarity_score''
          = result_field (evaluate answer (py ''factual'')) ''clarity_score''
        \<longrightarrow> (\<exists>t t'. result_field (evaluate answer (py ''factual'')) ''total_score''
                        = Some (PyFloat t)
                  \<and> result_field (evaluate (answer @ url) (py ''factual'')) ''total_score''
                        = Some (PyFloat t')
                  \<and> t \<le> t'))"
proof -
  have nourl: "\<not> factual_has_url answer" using assms(1,2) by (simp add: factual_has_url_iff)
  have url: "factual_has_url url" using assms(3) by (simp add: factual_has_url_iff)
  have gain: "factual_specificity_score answer + 0.3
                \<le> factual_specificity_score (answer @ url)"
    using nourl url by (rule specificity_gain)
  then have 1: "\<exists>s s'. result_field (evaluate answer (py ''factual'')) ''specificity_score''
                   = Some (PyFloat s)
             \<and> result_field (evaluate (answer @ url) (py ''factual'')) ''specificity_score''
                   = Some (PyFloat s')
             \<and> s + 0.3 \<le> s'"
    unfolding factual_fields by blast
  have 2: "\<exists>t t'. result_field (evaluate answer (py ''factual'')) ''total_score''
                        = Some (PyFloat t)
                  \<and> result_field (evaluate (answer @ url) (py ''factual'')) ''total_score''
                        = Some (PyFloat t')
                  \<and> t \<le> t'"
    if same: "result_field (evaluate (answer @ url) (py ''factual'')) ''length_score''
          = result_field (evaluate answer (py ''factual'')) ''length_score''"
       "result_field (evaluate (answer @ url) (py ''factual'')) ''clarity_score''
          = result_field (evaluate answer (py ''factual'')) ''clarity_score''"
  proof -
    from same have "factual_length_score (answer @ url) = factual_length_score answer"
      "factual_clarity_score (answer @ url) = factual_clarity_score answer"
      unfolding factual_fields by simp_all
    with gain have "factual_total_score answer \<le> factual_total_score (answer @ url)"
      unfolding factual_total_score_def by simp
    then have "round3 (factual_total_score answer)
                 \<le> round3 (factual_total_score (answer @ url))"
      by (rule round3_mono)
    then show ?thesis unfolding total_score_fields by blast
  qed
  from 1 2 show ?thesis by blast
qed

theorem url_raises_specificity_witness:
  "(\<exists>s s'. result_field (evaluate (py ''The form is at '') (py ''factual''))
               ''specificity_score'' = Some (PyFloat s)
           \<and> result_field (evaluate (py ''The form is at '' @ py ''www.nus.edu.sg/forms'')
               (py ''factual'')) ''specificity_score'' = Some (PyFloat s')
           \<and> s + 0.3 \<le> s')
   \<and> (\<exists>t t'. result_field (evaluate (py ''The form is at '') (py ''factual''))
               ''total_score'' = Some (PyFloat t)
           \<and> result_field (evaluate (py ''The form is at '' @ py ''www.nus.edu.sg/forms'')
               (py ''factual'')) ''total_score'' = Some (PyFloat t')
           \<and> t \<le> t')"
proof -
  let ?a = "py ''The form is at ''" and ?u = "py ''www.nus.edu.sg/forms''"
  have h: "\<not> substr_in (py ''http'') (lower ?a)" "\<not> substr_in (py ''www.'') (lower ?a)"
    "substr_in (py ''http'') (lower ?u) \<or> substr_in (py ''www.'') (lower ?u)"
    by (simp_all add: str_defs)
  have same: "result_field (evaluate (?a @ ?u) (py ''factual'')) ''length_score''
          = result_field (evaluate ?a (py ''factual'')) ''length_score''"
       "result_field (evaluate (?a @ ?u) (py ''factual'')) ''clarity_score''
          = result_field (evaluate ?a (py ''factual'')) ''clarity_score''"
    by (simp_all add: eval_defs evaluate_factual_def factual_defs str_defs)
  from url_raises_specificity[OF h] same show ?thesis by blast
qed

end
